theory Spec2Isabelle
  imports Complex_Main "HOL-Library.AList" "HOL-Library.Multiset"
begin

section \<open>Data model of \<^verbatim>\<open>src/ProcessBuilder.tsx\<close>\<close>

text \<open>
  The component stores function names as JavaScript strings, an empty slot as \<^verbatim>\<open>null\<close>,
  and a destructured array element that does not exist as \<^verbatim>\<open>undefined\<close>. The declared
  type of a palette entry is \<^verbatim>\<open>string\<close>, but \<^verbatim>\<open>handleDrop\<close> pushes the fourth field of
  the drag payload without checking that it exists, so the three kinds of value are kept
  apart here.
\<close>

datatype jsval = JStr string | JNull | JUndefined

text \<open>Truthiness as tested by \<^verbatim>\<open>if (existing)\<close>: only a non-empty string is truthy.\<close>

fun truthy :: "jsval \<Rightarrow> bool" where
  "truthy (JStr s) = (s \<noteq> [])"
| "truthy JNull = False"
| "truthy JUndefined = False"


datatype js_error = TypeError | SyntaxError | SecurityError | QuotaExceededError

text \<open>
  \<^verbatim>\<open>interface SlotState { [slotId: string]: string | null }\<close>: an object used as a
  dictionary. Its keys keep their insertion order, so it is an association list, read with
  \<^const>\<open>map_of\<close> and written with \<^const>\<open>AList.update\<close> (an existing key keeps its place, a
  new key goes to the end). Every key the component writes starts with \<^verbatim>\<open>slot-\<close>.
\<close>

type_synonym SlotState = "(string \<times> jsval) list"

record RowState =
  rowId :: string
  palette :: "jsval list"
  slots :: SlotState
  trash :: "jsval list"

type_synonym snapshot = "RowState list"

text \<open>Reading a property of an object: a missing key reads as \<^verbatim>\<open>undefined\<close>.\<close>

definition get_slot :: "SlotState \<Rightarrow> string \<Rightarrow> jsval" where
  "get_slot s k = (case map_of s k of None \<Rightarrow> JUndefined | Some v \<Rightarrow> v)"

definition ALL_FUNCTIONS :: "string list" where
  "ALL_FUNCTIONS = [''map'', ''filter'', ''reduce'', ''compress'']"

definition initialRows :: snapshot where
  "initialRows =
     [\<lparr>rowId = ''row-1'',
       palette = map JStr ALL_FUNCTIONS,
       slots = [(''slot-1-1'', JNull), (''slot-1-2'', JNull), (''slot-1-3'', JNull)],
       trash = []\<rparr>]"

section \<open>String helpers of the platform\<close>

text \<open>\<^verbatim>\<open>String.prototype.startsWith\<close>.\<close>

definition startsWith :: "string \<Rightarrow> string \<Rightarrow> bool" where
  "startsWith s p = (take (length p) s = p)"

text \<open>\<^verbatim>\<open>raw.split(':')\<close>: always at least one field, empty fields are kept.\<close>

fun split_colon :: "string \<Rightarrow> string list" where
  "split_colon [] = [[]]"
| "split_colon (c # cs) =
     (if c = CHR '':'' then [] # split_colon cs
      else (case split_colon cs of
              [] \<Rightarrow> [[c]]
            | p # ps \<Rightarrow> (c # p) # ps))"

text \<open>
  Array destructuring \<^verbatim>\<open>const [srcRow, srcContainer, empty, fn] = parts\<close>: a position past
  the end of the array yields \<^verbatim>\<open>undefined\<close>.
\<close>

definition field :: "string list \<Rightarrow> nat \<Rightarrow> jsval" where
  "field parts k = (if k < length parts then JStr (parts ! k) else JUndefined)"

text \<open>Decimal rendering of a non-negative number inside a template literal.\<close>

definition digit_char :: "nat \<Rightarrow> char" where
  "digit_char d = char_of (48 + d)"

function show_nat :: "nat \<Rightarrow> string" where
  "show_nat n = (if n < 10 then [digit_char n] else show_nat (n div 10) @ [digit_char (n mod 10)])"
  by pat_completeness auto
termination
  by (relation "measure (\<lambda>n. n)") auto

declare show_nat.simps [simp del]

text \<open>
  \<^verbatim>\<open>prev.slice(0, end)\<close>: a negative end counts from the end of the array, and the
  result never reaches past the array.
\<close>

definition slice0 :: "'a list \<Rightarrow> int \<Rightarrow> 'a list" where
  "slice0 xs e = (if e < 0 then take (nat (int (length xs) + e)) xs else take (nat e) xs)"

section \<open>History state and persistence\<close>

text \<open>
  The two \<^verbatim>\<open>useState\<close> cells of the component and the single local-storage item under
  \<^verbatim>\<open>STORAGE_KEY\<close> (\<^term>\<open>None\<close> when the item is absent).
\<close>

record app_state =
  history :: "snapshot list"
  index :: int
  storage :: "string option"

text \<open>\<^verbatim>\<open>const rows = history[index]\<close>; \<^term>\<open>None\<close> stands for \<^verbatim>\<open>undefined\<close>.\<close>

definition rows :: "app_state \<Rightarrow> snapshot option" where
  "rows st =
     (if 0 \<le> index st \<and> index st < int (length (history st))
      then Some (history st ! nat (index st)) else None)"

text \<open>
  What \<^verbatim>\<open>JSON.parse\<close> can return: any JSON value. A number is the double it denotes.
\<close>

datatype json =
  JsNull | JsBool bool | JsNum real | JsString string | JsArray "json list"
  | JsObject "(string \<times> json) list"

text \<open>
  Reading \<^verbatim>\<open>loaded.length\<close>: it throws on \<^verbatim>\<open>null\<close>, a string and an array have a length, an
  object has one when it has a property of that name, and a boolean or a number has none
  (\<^term>\<open>None\<close> stands for \<^verbatim>\<open>undefined\<close>).
\<close>

fun length_of :: "json \<Rightarrow> js_error + json option" where
  "length_of JsNull = Inl TypeError"
| "length_of (JsString s) = Inr (Some (JsNum (real (length s))))"
| "length_of (JsArray xs) = Inr (Some (JsNum (real (length xs))))"
| "length_of (JsObject kv) = Inr (map_of kv ''length'')"
| "length_of v = Inr None"

text \<open>Truthiness of the condition of \<^verbatim>\<open>loaded.length ? loaded : [initialRows]\<close>.\<close>

fun json_truthy :: "json \<Rightarrow> bool" where
  "json_truthy JsNull = False"
| "json_truthy (JsBool b) = b"
| "json_truthy (JsNum x) = (x \<noteq> 0)"
| "json_truthy (JsString s) = (s \<noteq> [])"
| "json_truthy (JsArray xs) = True"
| "json_truthy (JsObject kv) = True"

definition condition_truthy :: "json option \<Rightarrow> bool" where
  "condition_truthy c = (case c of None \<Rightarrow> False | Some v \<Rightarrow> json_truthy v)"

text \<open>
  The cast \<^verbatim>\<open>JSON.parse(stored) as RowState[][]\<close> checks nothing. The functions below tell
  which JSON values are a list of snapshots, and which one: an array of arrays of objects with
  exactly the properties \<^verbatim>\<open>rowId\<close> (a string), \<^verbatim>\<open>palette\<close> and \<^verbatim>\<open>trash\<close> (arrays) and \<^verbatim>\<open>slots\<close> (an
  object), whose entries are strings or \<^verbatim>\<open>null\<close> (\<^verbatim>\<open>JSON.stringify\<close> writes \<^verbatim>\<open>null\<close> for an
  \<^verbatim>\<open>undefined\<close> array entry).
\<close>

fun as_value :: "json \<Rightarrow> jsval option" where
  "as_value (JsString s) = Some (JStr s)"
| "as_value JsNull = Some JNull"
| "as_value v = None"

definition as_values :: "json \<Rightarrow> jsval list option" where
  "as_values v = (case v of JsArray xs \<Rightarrow> those (map as_value xs) | _ \<Rightarrow> None)"

definition as_slots :: "json \<Rightarrow> SlotState option" where
  "as_slots v =
     (case v of
        JsObject kv \<Rightarrow> those (map (\<lambda>(k, x). map_option (Pair k) (as_value x)) kv)
      | _ \<Rightarrow> None)"

definition as_row :: "json \<Rightarrow> RowState option" where
  "as_row v =
     (case v of
        JsObject kv \<Rightarrow>
          (if length kv = 4 then
             (case map_of kv ''rowId'' of
                Some (JsString rid) \<Rightarrow>
                  (case Option.bind (map_of kv ''palette'') as_values of
                     Some p \<Rightarrow>
                       (case Option.bind (map_of kv ''slots'') as_slots of
                          Some sl \<Rightarrow>
                            (case Option.bind (map_of kv ''trash'') as_values of
                               Some t \<Rightarrow> Some \<lparr>rowId = rid, palette = p, slots = sl, trash = t\<rparr>
                             | None \<Rightarrow> None)
                        | None \<Rightarrow> None)
                   | None \<Rightarrow> None)
              | _ \<Rightarrow> None)
           else None)
      | _ \<Rightarrow> None)"

definition as_snapshot :: "json \<Rightarrow> snapshot option" where
  "as_snapshot v = (case v of JsArray rs \<Rightarrow> those (map as_row rs) | _ \<Rightarrow> None)"

definition as_history :: "json \<Rightarrow> snapshot list option" where
  "as_history v = (case v of JsArray snaps \<Rightarrow> those (map as_snapshot snaps) | _ \<Rightarrow> None)"

text \<open>
  \<^verbatim>\<open>try { ... } catch { return [] }\<close>: whatever the body throws is replaced by the
  handler's value.
\<close>

definition try_catch :: "js_error + 'a \<Rightarrow> 'a \<Rightarrow> js_error + 'a" where
  "try_catch body fallback = (case body of Inl e \<Rightarrow> Inr fallback | Inr v \<Rightarrow> Inr v)"

text \<open>
  \<^verbatim>\<open>loadHistory\<close>. \<^verbatim>\<open>JSON.parse\<close> and \<^verbatim>\<open>localStorage.getItem\<close> belong to the platform and
  are parameters: \<open>getItem\<close> is the outcome of reading the item (it may throw, it may find
  nothing), \<open>parse\<close> either throws or returns a JSON value, which is returned as it is.
\<close>

definition loadHistory ::
  "(string \<Rightarrow> js_error + json) \<Rightarrow> js_error + string option \<Rightarrow> js_error + json"
where
  "loadHistory parse getItem =
     try_catch
       (case getItem of
          Inl e \<Rightarrow> Inl e
        | Inr None \<Rightarrow> Inr (JsArray [])
        | Inr (Some stored) \<Rightarrow> (if stored = [] then Inr (JsArray []) else parse stored))
       (JsArray [])"

text \<open>
  \<^verbatim>\<open>saveHistory\<close>, run by the effect that depends on \<^verbatim>\<open>history\<close>. The parameter \<open>store\<close> is the
  platform's part, \<^verbatim>\<open>localStorage.setItem(STORAGE_KEY, JSON.stringify(history))\<close>: it gives the
  text that is stored, or the error that \<^verbatim>\<open>setItem\<close> throws (quota exceeded, storage denied).
  The source does not catch that error.
\<close>

definition saveHistory ::
  "(snapshot list \<Rightarrow> js_error + string) \<Rightarrow> app_state \<Rightarrow> js_error + app_state"
where
  "saveHistory store st =
     (case store (history st) of
        Inl e \<Rightarrow> Inl e
      | Inr written \<Rightarrow> Inr (st\<lparr>storage := Some written\<rparr>))"

text \<open>
  First render: the lazy initialiser of \<^verbatim>\<open>history\<close>, the initial \<^verbatim>\<open>index\<close>, the render, and the
  effect that runs after it. The outcome is a mounted component, or a throw (of the
  initialiser, of the render, or of the effect, which unmounts the component), or a component
  whose \<^verbatim>\<open>history\<close> holds a value that is not a list of snapshots and whose behaviour is not
  modelled further.
\<close>

datatype mounted = Mounted app_state | Throws js_error | IllTyped json

text \<open>
  The render of a \<^verbatim>\<open>history\<close> that is not a list of snapshots, as far as it is modelled:
  \<^verbatim>\<open>rows = history[history.length - 1]\<close>, and \<^verbatim>\<open>rows.map\<close> throws when \<^verbatim>\<open>rows\<close> is not an array.
  It is used when \<^verbatim>\<open>history.length\<close> is truthy, so an array or a string is not empty here.
\<close>

definition render_ill_typed :: "json \<Rightarrow> mounted" where
  "render_ill_typed loaded =
     (case loaded of
        JsArray xs \<Rightarrow> (case last xs of JsArray rs \<Rightarrow> IllTyped loaded | _ \<Rightarrow> Throws TypeError)
      | JsString s \<Rightarrow> Throws TypeError
      | _ \<Rightarrow> IllTyped loaded)"

definition first_effect :: "(snapshot list \<Rightarrow> js_error + string) \<Rightarrow> app_state \<Rightarrow> mounted" where
  "first_effect store st =
     (case saveHistory store st of Inl e \<Rightarrow> Throws e | Inr st' \<Rightarrow> Mounted st')"

definition mount ::
  "(snapshot list \<Rightarrow> js_error + string) \<Rightarrow> (string \<Rightarrow> js_error + json) \<Rightarrow> string option
     \<Rightarrow> mounted"
where
  "mount store parse stored =
     (case loadHistory parse (Inr stored) of
        Inl e \<Rightarrow> Throws e
      | Inr loaded \<Rightarrow>
          (case length_of loaded of
             Inl e \<Rightarrow> Throws e
           | Inr len \<Rightarrow>
               (if condition_truthy len then
                  (case as_history loaded of
                     None \<Rightarrow> render_ill_typed loaded
                   | Some h \<Rightarrow>
                       first_effect store
                         \<lparr>history = h, index = int (length h) - 1, storage = stored\<rparr>)
                else
                  first_effect store
                    \<lparr>history = [initialRows], index = int (length [initialRows]) - 1,
                     storage = stored\<rparr>)))"

text \<open>\<^verbatim>\<open>apply\<close> (the name is reserved in Isabelle, hence \<open>applyRows\<close>).\<close>

definition applyRows :: "snapshot \<Rightarrow> app_state \<Rightarrow> app_state" where
  "applyRows newRows st =
     st\<lparr>history := slice0 (history st) (index st + 1) @ [newRows],
        index := index st + 1\<rparr>"

definition undo :: "app_state \<Rightarrow> app_state" where
  "undo st = (if index st > 0 then st\<lparr>index := index st - 1\<rparr> else st)"

definition redo :: "app_state \<Rightarrow> app_state" where
  "redo st =
     (if index st < int (length (history st)) - 1 then st\<lparr>index := index st + 1\<rparr> else st)"

text \<open>The body of the \<^verbatim>\<open>clearAll\<close> callback.\<close>

definition clearAll :: "app_state \<Rightarrow> app_state" where
  "clearAll st = st\<lparr>history := [initialRows], index := 0, storage := None\<rparr>"

definition newRow :: "nat \<Rightarrow> RowState" where
  "newRow newRowIndex =
     \<lparr>rowId = ''row-'' @ show_nat newRowIndex,
      palette = map JStr ALL_FUNCTIONS,
      slots = [(''slot-'' @ show_nat newRowIndex @ ''-1'', JNull),
               (''slot-'' @ show_nat newRowIndex @ ''-2'', JNull),
               (''slot-'' @ show_nat newRowIndex @ ''-3'', JNull)],
      trash = []\<rparr>"

definition addRow :: "app_state \<Rightarrow> js_error + app_state" where
  "addRow st =
     (case rows st of
        None \<Rightarrow> Inl TypeError
      | Some rs \<Rightarrow> Inr (applyRows (rs @ [newRow (length rs + 1)]) st))"

section \<open>Drag and drop\<close>


text \<open>
  The callback given to \<^verbatim>\<open>rows.map\<close> for the row at \<^verbatim>\<open>rowIdx\<close>, in its two steps. The first
  removes the function from its source: from the palette, from a slot, and otherwise from
  the trash.
\<close>

definition removeFromSource :: "RowState \<Rightarrow> string \<Rightarrow> jsval \<Rightarrow> RowState" where
  "removeFromSource r src fn =
     (if src = ''palette'' then r\<lparr>palette := filter (\<lambda>item. item \<noteq> fn) (palette r)\<rparr>
      else if startsWith src ''slot-'' then r\<lparr>slots := AList.update src JNull (slots r)\<rparr>
      else r\<lparr>trash := filter (\<lambda>item. item \<noteq> fn) (trash r)\<rparr>)"

text \<open>The second step adds the function to the destination, or swaps it in.\<close>

definition placeInDest :: "RowState \<Rightarrow> string \<Rightarrow> jsval \<Rightarrow> string \<Rightarrow> RowState" where
  "placeInDest u src fn dest =
     (if startsWith dest ''slot-'' then
        (let existing = get_slot (slots u) dest in
         if truthy existing then
           (let u1 = u\<lparr>slots := AList.update dest fn (slots u)\<rparr> in
            if startsWith src ''slot-'' then u1\<lparr>slots := AList.update src existing (slots u1)\<rparr>
            else if src = ''palette'' then u1\<lparr>palette := palette u1 @ [existing]\<rparr>
            else u1\<lparr>trash := trash u1 @ [existing]\<rparr>)
         else u\<lparr>slots := AList.update dest fn (slots u)\<rparr>)
      else if dest = ''palette'' then u\<lparr>palette := palette u @ [fn]\<rparr>
      else u\<lparr>trash := trash u @ [fn]\<rparr>)"

text \<open>
  \<^verbatim>\<open>srcContainer\<close> is \<^verbatim>\<open>undefined\<close> when the payload has no colon. It is then different from
  \<^verbatim>\<open>'palette'\<close>, and \<^verbatim>\<open>srcContainer.startsWith\<close> throws.
\<close>

definition updateRow :: "jsval \<Rightarrow> jsval \<Rightarrow> string \<Rightarrow> RowState \<Rightarrow> js_error + RowState" where
  "updateRow srcContainer fn dest r =
     (case srcContainer of
        JStr src \<Rightarrow> Inr (placeInDest (removeFromSource r src fn) src fn dest)
      | _ \<Rightarrow> Inl TypeError)"

text \<open>\<^verbatim>\<open>rows.map((r, idx) => idx !== rowIdx ? r : update(r))\<close>, stopping at a throw.\<close>

fun map_rows ::
  "(RowState \<Rightarrow> js_error + RowState) \<Rightarrow> nat \<Rightarrow> nat \<Rightarrow> snapshot \<Rightarrow> js_error + snapshot"
where
  "map_rows f rowIdx idx [] = Inr []"
| "map_rows f rowIdx idx (r # rs) =
     (case (if idx \<noteq> rowIdx then Inr r else f r) of
        Inl e \<Rightarrow> Inl e
      | Inr r' \<Rightarrow> (case map_rows f rowIdx (Suc idx) rs of
                    Inl e \<Rightarrow> Inl e
                  | Inr rs' \<Rightarrow> Inr (r' # rs')))"

text \<open>
  The part of \<^verbatim>\<open>handleDrop\<close> before \<^verbatim>\<open>apply(newRows)\<close>: \<^term>\<open>Inr None\<close> is one of the two
  early returns, \<^term>\<open>Inr (Some newRows)\<close> the snapshot handed to \<^verbatim>\<open>apply\<close>, \<^term>\<open>Inl e\<close> a
  throw. \<^verbatim>\<open>rows[rowIdx].rowId\<close> throws when \<^verbatim>\<open>rowIdx\<close> is past the end. The two operands
  of \<^verbatim>\<open>||\<close> in the second guard are tested one after the other.
\<close>

definition dropRows :: "snapshot \<Rightarrow> string \<Rightarrow> nat \<Rightarrow> string \<Rightarrow> js_error + snapshot option" where
  "dropRows rs raw rowIdx dest =
     (if raw = [] then Inr None
      else
        (let parts = split_colon raw;
             srcRow = field parts 0;
             srcContainer = field parts 1;
             fn = field parts 3
         in if \<not> rowIdx < length rs then Inl TypeError
            else if JStr (rowId (rs ! rowIdx)) \<noteq> srcRow then Inr None
            else if srcContainer = JStr dest then Inr None
            else (case map_rows (updateRow srcContainer fn dest) rowIdx 0 rs of
                    Inl e \<Rightarrow> Inl e
                  | Inr newRows \<Rightarrow> Inr (Some newRows))))"

text \<open>
  \<^verbatim>\<open>handleDrop\<close>: \<^term>\<open>Inr None\<close> when the handler returns before \<^verbatim>\<open>apply\<close> (no state setter
  is called), \<^term>\<open>Inr (Some st')\<close> when \<^verbatim>\<open>apply(newRows)\<close> ran.
\<close>

definition handleDrop ::
  "string \<Rightarrow> nat \<Rightarrow> string \<Rightarrow> app_state \<Rightarrow> js_error + app_state option"
where
  "handleDrop raw rowIdx dest st =
     (case rows st of
        None \<Rightarrow> Inl TypeError
      | Some rs \<Rightarrow>
          (case dropRows rs raw rowIdx dest of
             Inl e \<Rightarrow> Inl e
           | Inr None \<Rightarrow> Inr None
           | Inr (Some newRows) \<Rightarrow> Inr (Some (applyRows newRows st))))"

section \<open>Events\<close>

text \<open>
  One user action, handled to completion: the handler runs on the state of the last render,
  and when it has replaced \<^verbatim>\<open>history\<close> the effect \<^verbatim>\<open>useEffect(() => saveHistory(history),
  [history])\<close> runs after the next render. \<^verbatim>\<open>undo\<close> and \<^verbatim>\<open>redo\<close> only set \<^verbatim>\<open>index\<close>, so
  the effect does not run for them. \<^term>\<open>Inl e\<close> is a throw: of the handler, which leaves the
  state as it was, or of the effect, which unmounts the component.
\<close>

datatype event = Drop string nat string | AddRow | Undo | Redo | ClearAll

fun step ::
  "(snapshot list \<Rightarrow> js_error + string) \<Rightarrow> event \<Rightarrow> app_state \<Rightarrow> js_error + app_state"
where
  "step store (Drop raw rowIdx dest) st =
     (case handleDrop raw rowIdx dest st of
        Inl e \<Rightarrow> Inl e
      | Inr None \<Rightarrow> Inr st
      | Inr (Some st') \<Rightarrow> saveHistory store st')"
| "step store AddRow st =
     (case addRow st of
        Inl e \<Rightarrow> Inl e
      | Inr st' \<Rightarrow> saveHistory store st')"
| "step store Undo st = Inr (undo st)"
| "step store Redo st = Inr (redo st)"
| "step store ClearAll st = saveHistory store (clearAll st)"

section \<open>Predicates used in the statements\<close>

text \<open>The cursor is an index into the history (the invariant of the history in the data model).\<close>

definition valid_cursor :: "app_state \<Rightarrow> bool" where
  "valid_cursor st = (0 \<le> index st \<and> index st < int (length (history st)))"

text \<open>
  An event commits when its handler reaches \<^verbatim>\<open>apply(newRows)\<close>: always for \<^verbatim>\<open>addRow\<close>, and for a
  drop that passes the guards of \<^verbatim>\<open>handleDrop\<close>.
\<close>

fun commits :: "event \<Rightarrow> app_state \<Rightarrow> bool" where
  "commits (Drop raw rowIdx dest) st =
     (case handleDrop raw rowIdx dest st of Inr (Some st') \<Rightarrow> True | _ \<Rightarrow> False)"
| "commits AddRow st = (case addRow st of Inr st' \<Rightarrow> True | _ \<Rightarrow> False)"
| "commits ev st = False"

text \<open>
  The tokens of a row: its palette, the values of its occupied slots (a slot is occupied when
  its value is truthy, as \<^verbatim>\<open>handleDrop\<close> and the rendering test it) and its trash, as a
  multiset.
\<close>

definition occupied :: "SlotState \<Rightarrow> jsval multiset" where
  "occupied s = mset (filter truthy (map snd s))"

definition row_tokens :: "RowState \<Rightarrow> jsval multiset" where
  "row_tokens r = mset (palette r) + occupied (slots r) + mset (trash r)"











text \<open>Snapshots and states used as concrete inputs.\<close>

definition map_placed :: snapshot where
  "map_placed =
     [\<lparr>rowId = ''row-1'',
       palette = map JStr [''filter'', ''reduce'', ''compress''],
       slots = [(''slot-1-1'', JStr ''map''), (''slot-1-2'', JNull), (''slot-1-3'', JNull)],
       trash = []\<rparr>]"

definition filter_placed :: snapshot where
  "filter_placed =
     [\<lparr>rowId = ''row-1'',
       palette = map JStr [''map'', ''reduce'', ''compress''],
       slots = [(''slot-1-1'', JStr ''filter''), (''slot-1-2'', JNull), (''slot-1-3'', JNull)],
       trash = []\<rparr>]"

definition map_duplicated :: snapshot where
  "map_duplicated =
     [\<lparr>rowId = ''row-1'',
       palette = map JStr [''map'', ''filter'', ''reduce'', ''compress'', ''map''],
       slots = [(''slot-1-1'', JNull), (''slot-1-2'', JNull), (''slot-1-3'', JNull)],
       trash = []\<rparr>]"


definition map_everywhere :: snapshot where
  "map_everywhere =
     [\<lparr>rowId = ''row-1'',
       palette = map JStr [''map'', ''map''],
       slots = [(''slot-1-1'', JStr ''map''), (''slot-1-2'', JNull), (''slot-1-3'', JNull)],
       trash = []\<rparr>]"

definition initial_row_json :: json where
  "initial_row_json =
     JsObject [(''rowId'', JsString ''row-1''),
               (''palette'', JsArray (map JsString ALL_FUNCTIONS)),
               (''slots'', JsObject [(''slot-1-1'', JsNull), (''slot-1-2'', JsNull),
                                     (''slot-1-3'', JsNull)]),
               (''trash'', JsArray [])]"

definition map_placed_row_json :: json where
  "map_placed_row_json =
     JsObject [(''rowId'', JsString ''row-1''),
               (''palette'', JsArray (map JsString [''filter'', ''reduce'', ''compress''])),
               (''slots'', JsObject [(''slot-1-1'', JsString ''map''), (''slot-1-2'', JsNull),
                                     (''slot-1-3'', JsNull)]),
               (''trash'', JsArray [])]"

definition demo_state :: app_state where
  "demo_state = \<lparr>history = [initialRows, initialRows @ [newRow 2]], index = 1, storage = None\<rparr>"


section \<open>History: commit, undo, redo\<close>

lemma rows_valid: "valid_cursor st \<Longrightarrow> rows st = Some (history st ! nat (index st))"
  by (simp add: rows_def valid_cursor_def)

lemma slice0_valid: "0 \<le> c \<Longrightarrow> slice0 xs (c + 1) = take (nat c + 1) xs"
  by (simp add: slice0_def nat_add_distrib)

lemma applyRows_history:
  "valid_cursor st \<Longrightarrow> history (applyRows s st) = take (nat (index st) + 1) (history st) @ [s]"
  by (simp add: applyRows_def valid_cursor_def slice0_valid)

lemma valid_nat: "valid_cursor st \<Longrightarrow> nat (index st) < length (history st)"
  unfolding valid_cursor_def by linarith

lemma applyRows_length:
  "valid_cursor st \<Longrightarrow> length (history (applyRows s st)) = nat (index st) + 2"
  using valid_nat[of st] by (simp add: applyRows_history)

lemma applyRows_index: "index (applyRows s st) = index st + 1"
  by (simp add: applyRows_def)

lemma applyRows_valid: "valid_cursor st \<Longrightarrow> valid_cursor (applyRows s st)"
  unfolding valid_cursor_def[of "applyRows s st"]
  by (simp add: applyRows_length applyRows_index) (simp add: valid_cursor_def)

lemma applyRows_rows: "valid_cursor st \<Longrightarrow> rows (applyRows s st) = Some s"
  using valid_nat[of st]
  apply (simp add: rows_valid applyRows_valid applyRows_history applyRows_index)
  apply (simp add: valid_cursor_def nth_append nat_add_distrib)
  done

lemma undo_applyRows_rows: "valid_cursor st \<Longrightarrow> rows (undo (applyRows s st)) = rows st"
  using valid_nat[of st]
  apply (simp add: undo_def applyRows_index)
  apply (simp add: rows_def applyRows_history applyRows_index applyRows_length)
  apply (simp add: valid_cursor_def nth_append)
  done

lemma redo_undo_applyRows: "valid_cursor st \<Longrightarrow> redo (undo (applyRows s st)) = applyRows s st"
  apply (simp add: undo_def redo_def applyRows_index applyRows_length)
  apply (simp add: valid_cursor_def)
  done

text \<open>
  C4. With a valid cursor \<open>c\<close>, committing a snapshot keeps the log up to and including
  position \<open>c\<close>, appends the new snapshot and moves the cursor to \<open>c + 1\<close>, which is the last
  position. The snapshots that were after the cursor are no longer in the log, the new
  snapshot is the current one, and \<^verbatim>\<open>redo\<close> does nothing in the new state.
\<close>

theorem commit_truncates_and_appends:
  assumes "valid_cursor st"
  shows "history (applyRows s st) = take (nat (index st) + 1) (history st) @ [s]
       \<and> index (applyRows s st) = index st + 1
       \<and> index (applyRows s st) = int (length (history (applyRows s st))) - 1
       \<and> rows (applyRows s st) = Some s
       \<and> redo (applyRows s st) = applyRows s st
       \<and> set (history (applyRows s st)) \<subseteq> set (take (nat (index st) + 1) (history st)) \<union> {s}"
  using assms
  apply (intro conjI)
  apply (simp add: applyRows_history)
  apply (simp add: applyRows_index)
  apply (simp add: applyRows_index applyRows_length, simp add: valid_cursor_def)
  apply (simp add: applyRows_rows)
  apply (simp add: redo_def applyRows_index applyRows_length, simp add: valid_cursor_def)
  apply (simp add: applyRows_history)
  done

theorem commit_truncates_and_appends_witness:
  "valid_cursor \<lparr>history = [initialRows, initialRows @ [newRow 2]], index = 0, storage = None\<rparr>
   \<and> history (applyRows [newRow 3]
        \<lparr>history = [initialRows, initialRows @ [newRow 2]], index = 0, storage = None\<rparr>)
       = [initialRows, [newRow 3]]
   \<and> index (applyRows [newRow 3]
        \<lparr>history = [initialRows, initialRows @ [newRow 2]], index = 0, storage = None\<rparr>) = 1"
proof -
  let ?st = "\<lparr>history = [initialRows, initialRows @ [newRow 2]], index = 0, storage = None\<rparr>"
  have v: "valid_cursor ?st" by (simp add: valid_cursor_def)
  show ?thesis using v commit_truncates_and_appends [OF v, of "[newRow 3]"] by simp
qed

text \<open>
  C5. When an add-row or an accepted drop has committed a snapshot from a state with a valid
  cursor, \<^verbatim>\<open>undo\<close> shows the rows that were current before the event, and \<^verbatim>\<open>redo\<close> after that
  \<^verbatim>\<open>undo\<close> gives back the state after the event. \<^verbatim>\<open>undo\<close> changes nothing when the cursor is 0,
  \<^verbatim>\<open>redo\<close> changes nothing when the cursor is at the last position.
\<close>

lemma saveHistory_Inr:
  "saveHistory store x = Inr y \<longleftrightarrow> (\<exists>w. store (history x) = Inr w \<and> y = x\<lparr>storage := Some w\<rparr>)"
  by (auto simp: saveHistory_def split: sum.splits)

theorem undo_redo_single_mutation:
  assumes "valid_cursor st" and "commits ev st" and "step store ev st = Inr st'"
  shows "rows (undo st') = rows st
       \<and> redo (undo st') = st'
       \<and> (\<forall>s. index s \<le> 0 \<longrightarrow> undo s = s)
       \<and> (\<forall>s. index s \<ge> int (length (history s)) - 1 \<longrightarrow> redo s = s)"
proof -
  obtain newRows where "saveHistory store (applyRows newRows st) = Inr st'"
    using assms(2,3)
    by (cases ev) (auto simp: addRow_def handleDrop_def split: option.splits sum.splits)
  then obtain w where st': "st' = (applyRows newRows st)\<lparr>storage := Some w\<rparr>"
    by (auto simp: saveHistory_Inr)
  have u: "undo (x\<lparr>storage := Some w\<rparr>) = (undo x)\<lparr>storage := Some w\<rparr>" for x
    by (simp add: undo_def)
  have r: "redo (x\<lparr>storage := Some w\<rparr>) = (redo x)\<lparr>storage := Some w\<rparr>" for x
    by (simp add: redo_def)
  have rw: "rows (x\<lparr>storage := Some w\<rparr>) = rows x" for x
    by (simp add: rows_def)
  have "rows (undo st') = rows st"
    using assms(1) by (simp add: st' u rw undo_applyRows_rows)
  moreover have "redo (undo st') = st'"
    using assms(1) by (simp add: st' u r redo_undo_applyRows)
  moreover have "\<forall>s. index s \<le> 0 \<longrightarrow> undo s = s"
    by (simp add: undo_def)
  moreover have "\<forall>s. index s \<ge> int (length (history s)) - 1 \<longrightarrow> redo s = s"
    by (simp add: redo_def)
  ultimately show ?thesis by blast
qed

theorem undo_redo_single_mutation_witness:
  "valid_cursor \<lparr>history = [initialRows], index = 0, storage = None\<rparr>
   \<and> commits AddRow \<lparr>history = [initialRows], index = 0, storage = None\<rparr>
   \<and> step (\<lambda>h. Inr ''saved'') AddRow \<lparr>history = [initialRows], index = 0, storage = None\<rparr>
       = Inr \<lparr>history = [initialRows, initialRows @ [newRow 2]], index = 1,
              storage = Some ''saved''\<rparr>
   \<and> rows (undo \<lparr>history = [initialRows, initialRows @ [newRow 2]], index = 1,
                    storage = Some ''saved''\<rparr>) = Some initialRows
   \<and> redo (undo \<lparr>history = [initialRows, initialRows @ [newRow 2]], index = 1,
                    storage = Some ''saved''\<rparr>)
       = \<lparr>history = [initialRows, initialRows @ [newRow 2]], index = 1,
              storage = Some ''saved''\<rparr>"
proof -
  let ?st = "\<lparr>history = [initialRows], index = 0, storage = None\<rparr>"
  let ?st' = "\<lparr>history = [initialRows, initialRows @ [newRow 2]], index = 1,
              storage = Some ''saved''\<rparr>"
  have v: "valid_cursor ?st" by (simp add: valid_cursor_def)
  have l: "length initialRows = 1" by (simp add: initialRows_def)
  have r: "rows ?st = Some initialRows" by (simp add: rows_def)
  have c: "commits AddRow ?st" by (simp add: addRow_def r)
  have s: "step (\<lambda>h. Inr ''saved'') AddRow ?st = Inr ?st'"
    by (simp add: addRow_def r applyRows_def slice0_def saveHistory_def l numeral_2_eq_2)
  show ?thesis using v c s r undo_redo_single_mutation [OF v c s] by simp
qed

section \<open>Clear, load and save\<close>

text \<open>
  C3. \<^verbatim>\<open>clearAll\<close> replaces the log by the single initial snapshot, sets the cursor to 0 and
  removes the stored item. The log has been replaced, so the effect that saves the log runs
  after the next render and writes the item again: once the click has been handled the
  stored item holds the serialised single-snapshot log, it is not absent (and when the write
  throws, the component is gone).
\<close>

theorem clearAll_resets_but_item_is_written_again:
  "step store ClearAll st
     = (case store [initialRows] of
          Inl e \<Rightarrow> Inl e
        | Inr written \<Rightarrow> Inr \<lparr>history = [initialRows], index = 0, storage = Some written\<rparr>)
   \<and> clearAll st = \<lparr>history = [initialRows], index = 0, storage = None\<rparr>"
  by (simp add: clearAll_def saveHistory_def split: sum.splits)

lemma loadHistory_returns: "\<exists>v. loadHistory parse getItem = Inr v"
  by (simp add: loadHistory_def try_catch_def split: sum.splits)

lemma loadHistory_stored:
  "loadHistory parse (Inr stored) =
     Inr (case stored of
            None \<Rightarrow> JsArray []
          | Some s \<Rightarrow> (if s = [] then JsArray []
                      else (case parse s of Inl e \<Rightarrow> JsArray [] | Inr v \<Rightarrow> v)))"
  by (simp add: loadHistory_def try_catch_def split: sum.splits option.splits)






lemma those_length: "those xs = Some ys \<Longrightarrow> length ys = length xs"
  by (induction xs arbitrary: ys) (auto split: option.splits)

lemma as_history_length:
  assumes "as_history v = Some h"
  shows "length_of v = Inr (Some (JsNum (real (length h))))"
proof (cases v)
  case (JsArray xs)
  with assms have "those (map as_snapshot xs) = Some h"
    by (simp add: as_history_def)
  then have "length h = length xs"
    using those_length by fastforce
  with JsArray show ?thesis by simp
qed (use assms in \<open>simp_all add: as_history_def\<close>)

text \<open>
  C9. When the stored item parses to a non-empty list of \<open>n\<close> snapshots, the component starts
  with that list as its log and the cursor at \<open>n - 1\<close>: the rows shown are the last stored
  snapshot and \<^verbatim>\<open>redo\<close> does nothing. What \<^verbatim>\<open>saveHistory\<close> stores depends on the log only, not on
  the cursor.
\<close>

theorem mount_cursor_is_last:
  assumes "stored = Some s" and "s \<noteq> []" and "parse s = Inr v" and "as_history v = Some h"
    and "h \<noteq> []"
  shows "mount store parse stored
           = (case store h of
                Inl e \<Rightarrow> Throws e
              | Inr written \<Rightarrow>
                  Mounted \<lparr>history = h, index = int (length h) - 1, storage = Some written\<rparr>)
       \<and> (\<forall>x. rows \<lparr>history = h, index = int (length h) - 1, storage = x\<rparr> = Some (last h))
       \<and> (\<forall>x. redo \<lparr>history = h, index = int (length h) - 1, storage = x\<rparr>
                = \<lparr>history = h, index = int (length h) - 1, storage = x\<rparr>)
       \<and> (\<forall>st i. saveHistory store (st\<lparr>index := i\<rparr>)
                = (case store (history st) of
                     Inl e \<Rightarrow> Inl e
                   | Inr written \<Rightarrow> Inr (st\<lparr>index := i, storage := Some written\<rparr>)))"
proof -
  have n: "nat (int (length h) - 1) = length h - 1"
    by simp
  have l: "loadHistory parse (Inr stored) = Inr v"
    using assms(1,2,3) by (simp add: loadHistory_stored)
  have t: "condition_truthy (Some (JsNum (real (length h))))"
    using assms(5) by (simp add: condition_truthy_def)
  have "mount store parse stored
           = (case store h of
                Inl e \<Rightarrow> Throws e
              | Inr written \<Rightarrow>
                  Mounted \<lparr>history = h, index = int (length h) - 1, storage = Some written\<rparr>)"
    using t by (simp add: mount_def l as_history_length[OF assms(4)] assms(4) first_effect_def
        saveHistory_def split: sum.splits)
  moreover have "\<forall>x. rows \<lparr>history = h, index = int (length h) - 1, storage = x\<rparr>
           = Some (last h)"
    using assms(5) by (simp add: rows_def last_conv_nth n)
  moreover have "\<forall>x. redo \<lparr>history = h, index = int (length h) - 1, storage = x\<rparr>
           = \<lparr>history = h, index = int (length h) - 1, storage = x\<rparr>"
    by (simp add: redo_def)
  moreover have "\<forall>st i. saveHistory store (st\<lparr>index := i\<rparr>)
                = (case store (history st) of
                     Inl e \<Rightarrow> Inl e
                   | Inr written \<Rightarrow> Inr (st\<lparr>index := i, storage := Some written\<rparr>))"
    by (simp add: saveHistory_def split: sum.splits)
  ultimately show ?thesis by blast
qed

lemma as_history_example:
  "as_history (JsArray [JsArray [initial_row_json], JsArray [map_placed_row_json]])
     = Some [initialRows, map_placed]"
  by (simp add: as_history_def as_snapshot_def as_row_def as_values_def as_slots_def
      initial_row_json_def map_placed_row_json_def initialRows_def map_placed_def
      ALL_FUNCTIONS_def)

theorem mount_cursor_is_last_witness:
  "mount (\<lambda>h. Inr ''saved'')
      (\<lambda>s. Inr (JsArray [JsArray [initial_row_json], JsArray [map_placed_row_json]]))
      (Some ''saved'')
     = Mounted \<lparr>history = [initialRows, map_placed], index = 1, storage = Some ''saved''\<rparr>
   \<and> rows \<lparr>history = [initialRows, map_placed], index = 1, storage = Some ''saved''\<rparr>
       = Some map_placed"
  using mount_cursor_is_last [of "Some ''saved''" "''saved''"
      "\<lambda>s. Inr (JsArray [JsArray [initial_row_json], JsArray [map_placed_row_json]])"
      "JsArray [JsArray [initial_row_json], JsArray [map_placed_row_json]]"
      "[initialRows, map_placed]" "\<lambda>h. Inr ''saved''"]
  by (simp add: as_history_example)

lemma render_ill_typed_not_mounted: "render_ill_typed loaded \<noteq> Mounted st"
  by (simp add: render_ill_typed_def split: json.splits)

lemma mount_valid:
  assumes "mount store parse stored = Mounted st"
  shows "valid_cursor st"
proof -
  obtain loaded where l: "loadHistory parse (Inr stored) = Inr loaded"
    using loadHistory_returns by blast
  from assms obtain len where len: "length_of loaded = Inr len"
    by (auto simp: mount_def l split: sum.splits)
  show ?thesis
  proof (cases "condition_truthy len")
    case False
    with assms show ?thesis
      by (auto simp: mount_def l len first_effect_def saveHistory_def valid_cursor_def
          split: sum.splits)
  next
    case True
    have "as_history loaded \<noteq> None"
    proof
      assume "as_history loaded = None"
      with assms True have "render_ill_typed loaded = Mounted st"
        by (simp add: mount_def l len)
      then show False
        using render_ill_typed_not_mounted by blast
    qed
    then obtain h where h: "as_history loaded = Some h"
      by blast
    have "h \<noteq> []"
      using True len as_history_length[OF h] by (auto simp: condition_truthy_def)
    with assms True show ?thesis
      by (auto simp: mount_def l len h first_effect_def saveHistory_def valid_cursor_def
          split: sum.splits)
  qed
qed

lemma step_valid:
  assumes "valid_cursor st" and "step store ev st = Inr st'"
  shows "valid_cursor st'"
proof -
  have sv: "valid_cursor y" if "saveHistory store x = Inr y" "valid_cursor x" for x y
    using that by (auto simp: valid_cursor_def saveHistory_Inr)
  show ?thesis
  proof (cases ev)
    case (Drop raw rowIdx dest)
    with assms show ?thesis
      by (auto simp: handleDrop_def applyRows_valid split: sum.splits option.splits intro: sv)
  next
    case AddRow
    with assms show ?thesis
      by (auto simp: addRow_def applyRows_valid split: option.splits intro: sv)
  next
    case Undo
    with assms show ?thesis by (auto simp: undo_def valid_cursor_def)
  next
    case Redo
    with assms show ?thesis by (auto simp: redo_def valid_cursor_def)
  next
    case ClearAll
    with assms show ?thesis by (auto simp: clearAll_def saveHistory_Inr valid_cursor_def)
  qed
qed

section \<open>The drop handler\<close>

lemma map_rows_skip: "rowIdx < idx \<Longrightarrow> map_rows f rowIdx idx rs = Inr rs"
  by (induction rs arbitrary: idx) auto

lemma map_rows_at:
  "idx \<le> rowIdx \<Longrightarrow> rowIdx - idx < length rs \<Longrightarrow>
   map_rows f rowIdx idx rs =
     (case f (rs ! (rowIdx - idx)) of Inl e \<Rightarrow> Inl e | Inr r' \<Rightarrow> Inr (rs[rowIdx - idx := r']))"
proof (induction rs arbitrary: idx)
  case Nil
  then show ?case by simp
next
  case (Cons r rs)
  show ?case
  proof (cases "idx = rowIdx")
    case True
    then show ?thesis by (simp add: map_rows_skip split: sum.splits)
  next
    case False
    with Cons.prems have lt: "Suc idx \<le> rowIdx" "rowIdx - Suc idx < length rs"
      by auto
    have ix: "rowIdx - idx = Suc (rowIdx - Suc idx)"
      using lt by simp
    show ?thesis
      using False Cons.IH[OF lt] by (simp add: ix split: sum.splits)
  qed
qed

lemma updateRow_Inr:
  "updateRow c fn dest r = Inr r' \<longleftrightarrow>
     (\<exists>src. c = JStr src \<and> r' = placeInDest (removeFromSource r src fn) src fn dest)"
  by (cases c) (auto simp: updateRow_def)

lemma dropRows_Some:
  "dropRows rs raw rowIdx dest = Inr (Some nr) \<longleftrightarrow>
     raw \<noteq> [] \<and> rowIdx < length rs
     \<and> field (split_colon raw) 0 = JStr (rowId (rs ! rowIdx))
     \<and> (\<exists>src. field (split_colon raw) 1 = JStr src \<and> src \<noteq> dest
          \<and> nr = rs[rowIdx := placeInDest (removeFromSource (rs ! rowIdx) src (field (split_colon raw) 3))
                                 src (field (split_colon raw) 3) dest])"
  by (cases "field (split_colon raw) 1")
     (auto simp: dropRows_def Let_def map_rows_at updateRow_def split: sum.splits)

lemma dropRows_None:
  "rowIdx < length rs \<Longrightarrow>
   dropRows rs raw rowIdx dest = Inr None \<longleftrightarrow>
     raw = [] \<or> field (split_colon raw) 0 \<noteq> JStr (rowId (rs ! rowIdx))
     \<or> field (split_colon raw) 1 = JStr dest"
  by (auto simp: dropRows_def Let_def split: sum.splits)

lemma rowId_placeInDest: "rowId (placeInDest u src fn dest) = rowId u"
  by (simp add: placeInDest_def Let_def)

lemma rowId_removeFromSource: "rowId (removeFromSource r src fn) = rowId r"
  by (simp add: removeFromSource_def)

lemma handleDrop_Some:
  "rows st = Some rs \<Longrightarrow>
   handleDrop raw rowIdx dest st = Inr (Some st') \<longleftrightarrow>
     (\<exists>nr. dropRows rs raw rowIdx dest = Inr (Some nr) \<and> st' = applyRows nr st)"
  by (auto simp: handleDrop_def split: sum.splits option.splits)

lemma rows_Some_valid: "rows st = Some rs \<Longrightarrow> valid_cursor st"
  by (simp add: rows_def valid_cursor_def split: if_splits)

lemma dropRows_row:
  assumes "dropRows rs raw rowIdx dest = Inr (Some nr)"
    and "field (split_colon raw) 1 = JStr src"
  shows "nr ! rowIdx = placeInDest (removeFromSource (rs ! rowIdx) src (field (split_colon raw) 3))
                          src (field (split_colon raw) 3) dest"
    and "src \<noteq> dest" and "rowIdx < length rs"
  using assms by (auto simp: dropRows_Some)

lemma get_slot_update:
  "get_slot (AList.update k v s) k' = (if k' = k then v else get_slot s k')"
  by (simp add: get_slot_def update_conv')

text \<open>
  C7. An accepted drop produces rows of the same length in which the row at \<^verbatim>\<open>rowIdx\<close>, whose
  id is the one named in the payload, keeps its id, and every row at another position is equal
  to the row that was there before.
\<close>

theorem drop_touches_one_row:
  assumes "rows st = Some rs" and "handleDrop raw rowIdx dest st = Inr (Some st')"
  shows "\<exists>nr. rows st' = Some nr \<and> length nr = length rs \<and> rowIdx < length rs
            \<and> field (split_colon raw) 0 = JStr (rowId (rs ! rowIdx))
            \<and> rowId (nr ! rowIdx) = rowId (rs ! rowIdx)
            \<and> (\<forall>k<length rs. k \<noteq> rowIdx \<longrightarrow> nr ! k = rs ! k)"
proof -
  from assms obtain nr where nr: "dropRows rs raw rowIdx dest = Inr (Some nr)"
    and st': "st' = applyRows nr st"
    by (auto simp: handleDrop_Some)
  have "rows st' = Some nr"
    using assms(1) by (simp add: st' applyRows_rows rows_Some_valid)
  moreover from nr have "length nr = length rs" "rowIdx < length rs"
    "field (split_colon raw) 0 = JStr (rowId (rs ! rowIdx))"
    "rowId (nr ! rowIdx) = rowId (rs ! rowIdx)"
    "\<forall>k<length rs. k \<noteq> rowIdx \<longrightarrow> nr ! k = rs ! k"
    by (auto simp: dropRows_Some rowId_placeInDest rowId_removeFromSource)
  ultimately show ?thesis by blast
qed

lemma show_nat_2: "show_nat 2 = ''2''"
  by code_simp

theorem drop_touches_one_row_witness:
  "rows demo_state = Some (initialRows @ [newRow 2])
   \<and> handleDrop ''row-2:palette::compress'' 1 ''trash'' demo_state
       = Inr (Some (applyRows
           (initialRows @ [(newRow 2)\<lparr>palette := map JStr [''map'', ''filter'', ''reduce''],
                                        trash := [JStr ''compress'']\<rparr>]) demo_state))
   \<and> (\<exists>nr. rows (applyRows
           (initialRows @ [(newRow 2)\<lparr>palette := map JStr [''map'', ''filter'', ''reduce''],
                                        trash := [JStr ''compress'']\<rparr>]) demo_state) = Some nr
          \<and> nr ! 0 = (initialRows @ [newRow 2]) ! 0)"
proof -
  have r: "rows demo_state = Some (initialRows @ [newRow 2])"
    by (simp add: demo_state_def rows_def)
  have l: "length initialRows = 1" by (simp add: initialRows_def)
  have d: "dropRows (initialRows @ [newRow 2]) ''row-2:palette::compress'' 1 ''trash''
      = Inr (Some (initialRows @ [(newRow 2)\<lparr>palette := map JStr [''map'', ''filter'', ''reduce''],
                                        trash := [JStr ''compress'']\<rparr>]))"
    by code_simp
  have h: "handleDrop ''row-2:palette::compress'' 1 ''trash'' demo_state
       = Inr (Some (applyRows
           (initialRows @ [(newRow 2)\<lparr>palette := map JStr [''map'', ''filter'', ''reduce''],
                                        trash := [JStr ''compress'']\<rparr>]) demo_state))"
    using d by (simp add: handleDrop_def r)
  show ?thesis
    using r h drop_touches_one_row [OF r h] l by (auto simp: nth_append)
qed

text \<open>
  C6. For an accepted drop on a destination whose name starts with \<^verbatim>\<open>slot-\<close>, with \<open>t\<close> the value
  of that slot before the drop: the destination slot holds the dragged function afterwards
  and no slot other than source and destination changes. When \<open>t\<close> is a token (truthy), it goes
  to the source slot if the source is a slot, to the end of the palette if the source is the
  palette, and to the end of the trash otherwise. When the slot was empty nothing is
  displaced: the function is placed and the source has lost it.
\<close>

theorem drop_onto_slot:
  assumes "dropRows rs raw rowIdx dest = Inr (Some nr)"
    and "startsWith dest ''slot-''"
    and "field (split_colon raw) 1 = JStr src"
    and "field (split_colon raw) 3 = fn"
    and "get_slot (slots (rs ! rowIdx)) dest = t"
  shows "get_slot (slots (nr ! rowIdx)) dest = fn
     \<and> (\<forall>k. k \<noteq> dest \<and> k \<noteq> src \<longrightarrow>
            get_slot (slots (nr ! rowIdx)) k = get_slot (slots (rs ! rowIdx)) k)
     \<and> (truthy t \<longrightarrow>
          (if startsWith src ''slot-''
           then get_slot (slots (nr ! rowIdx)) src = t
                \<and> palette (nr ! rowIdx) = palette (rs ! rowIdx)
                \<and> trash (nr ! rowIdx) = trash (rs ! rowIdx)
           else if src = ''palette''
           then palette (nr ! rowIdx) = filter (\<lambda>item. item \<noteq> fn) (palette (rs ! rowIdx)) @ [t]
                \<and> trash (nr ! rowIdx) = trash (rs ! rowIdx)
           else trash (nr ! rowIdx) = filter (\<lambda>item. item \<noteq> fn) (trash (rs ! rowIdx)) @ [t]
                \<and> palette (nr ! rowIdx) = palette (rs ! rowIdx)))
     \<and> (\<not> truthy t \<longrightarrow>
          (if startsWith src ''slot-''
           then get_slot (slots (nr ! rowIdx)) src = JNull
                \<and> palette (nr ! rowIdx) = palette (rs ! rowIdx)
                \<and> trash (nr ! rowIdx) = trash (rs ! rowIdx)
           else if src = ''palette''
           then palette (nr ! rowIdx) = filter (\<lambda>item. item \<noteq> fn) (palette (rs ! rowIdx))
                \<and> trash (nr ! rowIdx) = trash (rs ! rowIdx)
           else trash (nr ! rowIdx) = filter (\<lambda>item. item \<noteq> fn) (trash (rs ! rowIdx))
                \<and> palette (nr ! rowIdx) = palette (rs ! rowIdx)))"
proof -
  note row = dropRows_row[OF assms(1,3)]
  have np: "\<not> startsWith ''palette'' ''slot-''"
    by (simp add: startsWith_def)
  have nd: "dest \<noteq> ''palette''"
    using assms(2) np by auto
  show ?thesis
    using assms(2,4,5) row(2) np nd
    by (auto simp: row(1) placeInDest_def removeFromSource_def Let_def get_slot_update)
qed

theorem drop_onto_slot_witness:
  "dropRows filter_placed ''row-1:palette::map'' 0 ''slot-1-1''
     = Inr (Some [\<lparr>rowId = ''row-1'',
                    palette = map JStr [''reduce'', ''compress'', ''filter''],
                    slots = [(''slot-1-1'', JStr ''map''), (''slot-1-2'', JNull),
                             (''slot-1-3'', JNull)],
                    trash = []\<rparr>])
   \<and> get_slot (slots (filter_placed ! 0)) ''slot-1-1'' = JStr ''filter''
   \<and> truthy (JStr ''filter'')"
proof -
  let ?nr = "[\<lparr>rowId = ''row-1'',
                    palette = map JStr [''reduce'', ''compress'', ''filter''],
                    slots = [(''slot-1-1'', JStr ''map''), (''slot-1-2'', JNull),
                             (''slot-1-3'', JNull)],
                    trash = []\<rparr>]"
  have d: "dropRows filter_placed ''row-1:palette::map'' 0 ''slot-1-1'' = Inr (Some ?nr)"
    by code_simp
  have s: "startsWith ''slot-1-1'' ''slot-''"
    by (simp add: startsWith_def)
  have f1: "field (split_colon ''row-1:palette::map'') 1 = JStr ''palette''"
    by (simp add: field_def)
  have f3: "field (split_colon ''row-1:palette::map'') 3 = JStr ''map''"
    by (simp add: field_def)
  have g: "get_slot (slots (filter_placed ! 0)) ''slot-1-1'' = JStr ''filter''"
    by (simp add: filter_placed_def get_slot_def)
  show ?thesis
    using d g drop_onto_slot [OF d s f1 f3 g] by simp
qed

text \<open>
  C2, as the code has it. With \<^verbatim>\<open>rowIdx\<close> a row of the current rows, \<^verbatim>\<open>handleDrop\<close> returns
  without calling \<^verbatim>\<open>apply\<close> exactly when the payload is empty, or its first field is not the
  id of the destination row, or its second field is the name of the destination; the state
  is then unchanged.
\<close>

theorem drop_rejected_iff:
  assumes "rows st = Some rs" and "rowIdx < length rs"
  shows "(handleDrop raw rowIdx dest st = Inr None
          \<longleftrightarrow> raw = [] \<or> field (split_colon raw) 0 \<noteq> JStr (rowId (rs ! rowIdx))
              \<or> field (split_colon raw) 1 = JStr dest)
       \<and> (handleDrop raw rowIdx dest st = Inr None
            \<longrightarrow> step store (Drop raw rowIdx dest) st = Inr st)"
proof -
  have h: "handleDrop raw rowIdx dest st = Inr None \<longleftrightarrow> dropRows rs raw rowIdx dest = Inr None"
    using assms(1) by (simp add: handleDrop_def split: sum.splits option.splits)
  have s: "handleDrop raw rowIdx dest st = Inr None
            \<longrightarrow> step store (Drop raw rowIdx dest) st = Inr st"
    by simp
  show ?thesis
    unfolding h[symmetric] dropRows_None[OF assms(2), symmetric] using s h by blast
qed

theorem drop_rejected_iff_witness:
  "rows \<lparr>history = [initialRows], index = 0, storage = None\<rparr> = Some initialRows
   \<and> 0 < length initialRows
   \<and> field (split_colon ''row-2:palette::map'') 0 \<noteq> JStr (rowId (initialRows ! 0))
   \<and> handleDrop ''row-2:palette::map'' 0 ''trash''
        \<lparr>history = [initialRows], index = 0, storage = None\<rparr> = Inr None
   \<and> step (\<lambda>h. Inr ''saved'') (Drop ''row-2:palette::map'' 0 ''trash'')
        \<lparr>history = [initialRows], index = 0, storage = None\<rparr>
       = Inr \<lparr>history = [initialRows], index = 0, storage = None\<rparr>"
proof -
  have r: "rows \<lparr>history = [initialRows], index = 0, storage = None\<rparr> = Some initialRows"
    by (simp add: rows_def)
  have l: "0 < length initialRows"
    by (simp add: initialRows_def)
  have f: "field (split_colon ''row-2:palette::map'') 0 \<noteq> JStr (rowId (initialRows ! 0))"
    by (simp add: field_def initialRows_def)
  show ?thesis
    using r l f drop_rejected_iff [OF r l, of "''row-2:palette::map''" "''trash''" "\<lambda>h. Inr ''saved''"]
    by blast
qed

text \<open>
  C2, as stated, fails: the payload \<^verbatim>\<open>row-1:palette\<close> has two fields instead of four, and
  dropped on the trash of the initial row it is accepted: a snapshot is committed in which
  \<^verbatim>\<open>undefined\<close> has been pushed to the trash. The payload \<^verbatim>\<open>row-1\<close> makes the handler throw.
\<close>

theorem malformed_payload_not_rejected:
  "split_colon ''row-1:palette'' = [''row-1'', ''palette'']
   \<and> handleDrop ''row-1:palette'' 0 ''trash'' \<lparr>history = [initialRows], index = 0, storage = None\<rparr>
       = Inr (Some \<lparr>history = [initialRows,
                       [\<lparr>rowId = ''row-1'',
                         palette = map JStr [''map'', ''filter'', ''reduce'', ''compress''],
                         slots = [(''slot-1-1'', JNull), (''slot-1-2'', JNull),
                                  (''slot-1-3'', JNull)],
                         trash = [JUndefined]\<rparr>]],
                    index = 1, storage = None\<rparr>)
   \<and> handleDrop ''row-1'' 0 ''trash'' \<lparr>history = [initialRows], index = 0, storage = None\<rparr>
       = Inl TypeError"
  by code_simp

section \<open>Tokens of a row\<close>

lemma occupied_update:
  "occupied (AList.update k v s) + (if truthy (get_slot s k) then {#get_slot s k#} else {#})
     = occupied s + (if truthy v then {#v#} else {#})"
proof (induction s)
  case Nil
  then show ?case by (simp add: occupied_def get_slot_def)
next
  case (Cons p s)
  obtain k' v' where p: "p = (k', v')" by (cases p)
  show ?case
  proof (cases "k' = k")
    case True
    then show ?thesis by (simp add: p occupied_def get_slot_def)
  next
    case False
    have g: "get_slot (p # s) k = get_slot s k"
      using False by (simp add: p get_slot_def)
    have o: "occupied (p # u) = (if truthy v' then {#v'#} else {#}) + occupied u" for u
      by (simp add: p occupied_def)
    have u: "AList.update k v (p # s) = p # AList.update k v s"
      using False by (simp add: p)
    show ?thesis
      unfolding g u o using Cons.IH by (simp add: add.assoc)
  qed
qed

lemma mset_filter_neq:
  "mset (filter (\<lambda>item. item \<noteq> fn) xs) + replicate_mset (count (mset xs) fn) fn = mset xs"
  by (induction xs) auto

lemma placeInDest_tokens:
  assumes "\<not> startsWith src ''slot-''"
  shows "row_tokens (placeInDest u src fn dest)
         = row_tokens u + (if startsWith dest ''slot-'' \<and> \<not> truthy fn then {#} else {#fn#})"
proof (cases "startsWith dest ''slot-''")
  case False
  then show ?thesis by (simp add: placeInDest_def row_tokens_def)
next
  case True
  have ou: "occupied (AList.update dest fn (slots u))
              + (if truthy (get_slot (slots u) dest) then {#get_slot (slots u) dest#} else {#})
            = occupied (slots u) + (if truthy fn then {#fn#} else {#})"
    by (rule occupied_update)
  show ?thesis
  proof (cases "truthy (get_slot (slots u) dest)")
    case t: True
    from ou t have e: "occupied (AList.update dest fn (slots u)) + {#get_slot (slots u) dest#}
        = occupied (slots u) + (if truthy fn then {#fn#} else {#})"
      by simp
    show ?thesis
      using True t assms e
      by (simp add: placeInDest_def row_tokens_def Let_def)
  next
    case f: False
    from ou f have e: "occupied (AList.update dest fn (slots u))
        = occupied (slots u) + (if truthy fn then {#fn#} else {#})"
      by simp
    show ?thesis
      using True f e by (simp add: placeInDest_def row_tokens_def Let_def)
  qed
qed

lemma removeFromSource_tokens:
  assumes "\<not> startsWith src ''slot-''"
  shows "row_tokens (removeFromSource r src fn)
           + replicate_mset (count (mset (if src = ''palette'' then palette r else trash r)) fn) fn
         = row_tokens r"
proof (cases "src = ''palette''")
  case True
  show ?thesis
    using mset_filter_neq[of fn "palette r"] True
    by (simp add: removeFromSource_def row_tokens_def)
next
  case False
  show ?thesis
    using mset_filter_neq[of fn "trash r"] False assms
    by (simp add: removeFromSource_def row_tokens_def)
qed

lemma move_tokens:
  assumes "\<not> startsWith src ''slot-''"
  shows "row_tokens (placeInDest (removeFromSource r src fn) src fn dest)
           + replicate_mset (count (mset (if src = ''palette'' then palette r else trash r)) fn) fn
         = row_tokens r + (if startsWith dest ''slot-'' \<and> \<not> truthy fn then {#} else {#fn#})"
proof -
  have "row_tokens (placeInDest (removeFromSource r src fn) src fn dest)
           + replicate_mset (count (mset (if src = ''palette'' then palette r else trash r)) fn) fn
        = (row_tokens (removeFromSource r src fn)
           + replicate_mset (count (mset (if src = ''palette'' then palette r else trash r)) fn) fn)
          + (if startsWith dest ''slot-'' \<and> \<not> truthy fn then {#} else {#fn#})"
    unfolding placeInDest_tokens[OF assms] by (simp only: add.assoc add.commute add.left_commute)
  then show ?thesis
    unfolding removeFromSource_tokens[OF assms] .
qed


text \<open>
  C10, as the code has it. The palette and the trash are filtered by value. When the source
  named in the payload is the palette or the trash and holds the dragged value at least twice,
  an accepted drop leaves in the source its other entries, followed by the token displaced
  from the destination when that is an occupied slot; the destination receives the value
  once (as the new value of the slot, or as one entry appended to the palette or the trash);
  and the row holds strictly fewer occurrences of the value than before.
\<close>

theorem removal_filters_by_name:
  assumes "dropRows rs raw rowIdx dest = Inr (Some nr)"
    and "field (split_colon raw) 1 = JStr src"
    and "field (split_colon raw) 3 = fn"
    and "src = ''palette'' \<or> src = ''trash''"
    and "get_slot (slots (rs ! rowIdx)) dest = t"
    and "2 \<le> count (mset (if src = ''palette'' then palette (rs ! rowIdx) else trash (rs ! rowIdx))) fn"
  shows "(if src = ''palette'' then palette (nr ! rowIdx) else trash (nr ! rowIdx))
           = filter (\<lambda>item. item \<noteq> fn)
               (if src = ''palette'' then palette (rs ! rowIdx) else trash (rs ! rowIdx))
             @ (if startsWith dest ''slot-'' then (if truthy t then [t] else [])
                else if src = ''trash'' \<and> dest \<noteq> ''palette'' then [fn] else [])
     \<and> (if src = ''palette'' then trash (nr ! rowIdx) else palette (nr ! rowIdx))
           = (if src = ''palette'' then trash (rs ! rowIdx) else palette (rs ! rowIdx))
             @ (if startsWith dest ''slot-'' then []
                else if src = ''trash'' \<and> dest \<noteq> ''palette'' then [] else [fn])
     \<and> slots (nr ! rowIdx)
           = (if startsWith dest ''slot-'' then AList.update dest fn (slots (rs ! rowIdx))
              else slots (rs ! rowIdx))
     \<and> count (row_tokens (nr ! rowIdx)) fn < count (row_tokens (rs ! rowIdx)) fn"
proof -
  note row = dropRows_row[OF assms(1,2)]
  have ns: "\<not> startsWith src ''slot-''"
    using assms(4) by (auto simp: startsWith_def)
  have np: "\<not> startsWith ''palette'' ''slot-''" and nt: "\<not> startsWith ''trash'' ''slot-''"
    by (simp_all add: startsWith_def)
  let ?k = "count (mset (if src = ''palette'' then palette (rs ! rowIdx) else trash (rs ! rowIdx))) fn"
  have "row_tokens (nr ! rowIdx) + replicate_mset ?k fn
        = row_tokens (rs ! rowIdx) + (if startsWith dest ''slot-'' \<and> \<not> truthy fn then {#} else {#fn#})"
    unfolding row(1) assms(3) by (rule move_tokens[OF ns])
  then have "count (row_tokens (nr ! rowIdx) + replicate_mset ?k fn) fn
        = count (row_tokens (rs ! rowIdx)
                 + (if startsWith dest ''slot-'' \<and> \<not> truthy fn then {#} else {#fn#})) fn"
    by simp
  then have "count (row_tokens (nr ! rowIdx)) fn + ?k \<le> count (row_tokens (rs ! rowIdx)) fn + 1"
    by (simp split: if_splits)
  with assms(6) have less: "count (row_tokens (nr ! rowIdx)) fn < count (row_tokens (rs ! rowIdx)) fn"
    by linarith
  have src_after: "(if src = ''palette'' then palette (nr ! rowIdx) else trash (nr ! rowIdx))
           = filter (\<lambda>item. item \<noteq> fn)
               (if src = ''palette'' then palette (rs ! rowIdx) else trash (rs ! rowIdx))
             @ (if startsWith dest ''slot-'' then (if truthy t then [t] else [])
                else if src = ''trash'' \<and> dest \<noteq> ''palette'' then [fn] else [])"
    using assms(3,4,5) row(2) np nt
    by (auto simp: row(1) placeInDest_def removeFromSource_def Let_def)
  have other_after: "(if src = ''palette'' then trash (nr ! rowIdx) else palette (nr ! rowIdx))
           = (if src = ''palette'' then trash (rs ! rowIdx) else palette (rs ! rowIdx))
             @ (if startsWith dest ''slot-'' then []
                else if src = ''trash'' \<and> dest \<noteq> ''palette'' then [] else [fn])"
    using assms(3,4,5) row(2) np nt
    by (auto simp: row(1) placeInDest_def removeFromSource_def Let_def)
  have slots_after: "slots (nr ! rowIdx)
           = (if startsWith dest ''slot-'' then AList.update dest fn (slots (rs ! rowIdx))
              else slots (rs ! rowIdx))"
    using assms(3,4,5) row(2) np nt
    by (auto simp: row(1) placeInDest_def removeFromSource_def Let_def)
  from src_after other_after slots_after less show ?thesis by blast
qed

theorem removal_filters_by_name_witness:
  "dropRows map_duplicated ''row-1:palette::map'' 0 ''slot-1-1''
     = Inr (Some [\<lparr>rowId = ''row-1'',
                    palette = map JStr [''filter'', ''reduce'', ''compress''],
                    slots = [(''slot-1-1'', JStr ''map''), (''slot-1-2'', JNull),
                             (''slot-1-3'', JNull)],
                    trash = []\<rparr>])
   \<and> count (mset (palette (map_duplicated ! 0))) (JStr ''map'') = 2
   \<and> count (row_tokens \<lparr>rowId = ''row-1'',
                    palette = map JStr [''filter'', ''reduce'', ''compress''],
                    slots = [(''slot-1-1'', JStr ''map''), (''slot-1-2'', JNull),
                             (''slot-1-3'', JNull)],
                    trash = []\<rparr>) (JStr ''map'')
       < count (row_tokens (map_duplicated ! 0)) (JStr ''map'')"
proof -
  let ?nr = "[\<lparr>rowId = ''row-1'',
                    palette = map JStr [''filter'', ''reduce'', ''compress''],
                    slots = [(''slot-1-1'', JStr ''map''), (''slot-1-2'', JNull),
                             (''slot-1-3'', JNull)],
                    trash = []\<rparr>]"
  have d: "dropRows map_duplicated ''row-1:palette::map'' 0 ''slot-1-1'' = Inr (Some ?nr)"
    by code_simp
  have f1: "field (split_colon ''row-1:palette::map'') 1 = JStr ''palette''"
    by (simp add: field_def)
  have f3: "field (split_colon ''row-1:palette::map'') 3 = JStr ''map''"
    by (simp add: field_def)
  have g: "get_slot (slots (map_duplicated ! 0)) ''slot-1-1'' = JNull"
    by (simp add: map_duplicated_def get_slot_def)
  have c: "count (mset (palette (map_duplicated ! 0))) (JStr ''map'') = 2"
    by (simp add: map_duplicated_def)
  have k: "2 \<le> count (mset (if ''palette'' = ''palette'' then palette (map_duplicated ! 0)
                               else trash (map_duplicated ! 0))) (JStr ''map'')"
    using c by simp
  have "''palette'' = ''palette'' \<or> ''palette'' = ''trash''"
    by simp
  from removal_filters_by_name [OF d f1 f3 this g k]
  have less: "count (row_tokens (?nr ! 0)) (JStr ''map'')
                < count (row_tokens (map_duplicated ! 0)) (JStr ''map'')"
    by blast
  show ?thesis
    using d c less by simp
qed

text \<open>
  C10, as stated, fails when the destination is a slot occupied by a token of the same name:
  the palette holds \<^verbatim>\<open>map\<close> twice and the first slot holds \<^verbatim>\<open>map\<close>; after \<^verbatim>\<open>map\<close> is dropped from
  the palette on that slot, the displaced \<^verbatim>\<open>map\<close> has been pushed to the palette, so the source
  still holds the name.
\<close>

theorem displaced_token_returns_to_source:
  "count (mset (palette (map_everywhere ! 0))) (JStr ''map'') = 2
   \<and> dropRows map_everywhere ''row-1:palette::map'' 0 ''slot-1-1''
       = Inr (Some [\<lparr>rowId = ''row-1'',
                      palette = [JStr ''map''],
                      slots = [(''slot-1-1'', JStr ''map''), (''slot-1-2'', JNull),
                               (''slot-1-3'', JNull)],
                      trash = []\<rparr>])
   \<and> JStr ''map'' \<in> set (palette \<lparr>rowId = ''row-1'',
                      palette = [JStr ''map''],
                      slots = [(''slot-1-1'', JStr ''map''), (''slot-1-2'', JNull),
                               (''slot-1-3'', JNull)],
                      trash = []\<rparr>)"
proof -
  have "count (mset (palette (map_everywhere ! 0))) (JStr ''map'') = 2"
    by (simp add: map_everywhere_def)
  moreover have "dropRows map_everywhere ''row-1:palette::map'' 0 ''slot-1-1''
       = Inr (Some [\<lparr>rowId = ''row-1'',
                      palette = [JStr ''map''],
                      slots = [(''slot-1-1'', JStr ''map''), (''slot-1-2'', JNull),
                               (''slot-1-3'', JNull)],
                      trash = []\<rparr>])"
    by code_simp
  ultimately show ?thesis by simp
qed

section \<open>Conservation of tokens\<close>






























end
